theory Spec2Isabelle
  imports Main
begin

section \<open>Configuration (Snake.py, lines 20-26)\<close>

definition SCREEN_WIDTH :: int where
  "SCREEN_WIDTH = 800"

definition SCREEN_HEIGHT :: int where
  "SCREEN_HEIGHT = 600"

definition SNAKE_BLOCK_SIZE :: int where
  "SNAKE_BLOCK_SIZE = 20"

section \<open>Events delivered by the window system\<close>

text \<open>
  The keys that \<open>game_loop\<close> tests for, and every other key. An event is the window
  being closed, a key going down, or anything else (mouse, key release, ...), which
  every loop of \<open>game_loop\<close> skips. One call of \<open>pygame.event.get()\<close> returns the list
  of the events that arrived since the last call: one \<open>event list\<close> per frame.
\<close>

datatype key = K_LEFT | K_RIGHT | K_UP | K_DOWN | K_SPACE | K_q | K_c | K_other nat

datatype event = QUIT | KEYDOWN key | OTHER_EVENT

section \<open>The random generator\<close>

text \<open>
  The generator of module \<open>random\<close> is global state. It is modelled as the sequence of raw
  outcomes of its successive calls (\<open>rnd k\<close> for call number \<open>k\<close>) together with the
  number of calls made so far, which the functions below take and return.
  \<open>randrange start stop\<close> delivers a member of \<open>[start, stop)\<close>; which one is decided by
  the raw outcome. Both ranges used by the program are non-empty.
\<close>

type_synonym rng = "nat \<Rightarrow> nat"

definition randrange :: "int \<Rightarrow> int \<Rightarrow> nat \<Rightarrow> int" where
  "randrange start stop r = start + int r mod (stop - start)"

text \<open>
  Lines 143-144, 148-149 and 222-223 are the same pair of statements: a grid-aligned
  \<open>food_x\<close> from one call of the generator and a grid-aligned \<open>food_y\<close> from the next.
\<close>

definition draw_food :: "rng \<Rightarrow> nat \<Rightarrow> int \<times> int" where
  "draw_food rnd i =
     (randrange 0 (SCREEN_WIDTH div SNAKE_BLOCK_SIZE) (rnd i) * SNAKE_BLOCK_SIZE,
      randrange 0 (SCREEN_HEIGHT div SNAKE_BLOCK_SIZE) (rnd (i + 1)) * SNAKE_BLOCK_SIZE)"

section \<open>The variables of one play-through\<close>

text \<open>
  The local variables of \<open>game_loop\<close> that live through the gameplay loop. A segment
  \<open>[x, y]\<close> is a pair. \<open>snake_x\<close> and \<open>snake_y\<close> start as the floats \<open>400.0\<close> and \<open>300.0\<close>
  (from the true division in lines 129-130) and only ever have multiples of 20 added:
  their values are whole numbers far below \<open>2^53\<close>, on which float arithmetic and the
  comparisons with integers are exact, so they are integers here.
\<close>

record game =
  snake_x :: int
  snake_y :: int
  snake_x_change :: int
  snake_y_change :: int
  last_key_pressed :: key
  snake_segments :: "(int \<times> int) list"
  snake_current_length :: int
  current_player_score :: int
  food_x :: int
  food_y :: int
  game_is_over :: bool
  quit_game_app :: bool

section \<open>Gameplay initialisation (lines 127-149)\<close>

definition initial_snake_x :: int where
  "initial_snake_x = (SCREEN_WIDTH div 2 div SNAKE_BLOCK_SIZE) * SNAKE_BLOCK_SIZE"

definition initial_snake_y :: int where
  "initial_snake_y = (SCREEN_HEIGHT div 2 div SNAKE_BLOCK_SIZE) * SNAKE_BLOCK_SIZE"

text \<open>
  Lines 147-149: redraw while the food is on the initial snake position. \<open>i\<close> is the number
  of generator calls made so far. The loop has no bound: not returning is \<open>None\<close>.
\<close>

partial_function (option) initial_food ::
  "rng \<Rightarrow> nat \<Rightarrow> int \<times> int \<Rightarrow> int \<times> int \<Rightarrow> ((int \<times> int) \<times> nat) option" where
  "initial_food rnd i snake food =
     (if fst food = fst snake \<and> snd food = snd snake
      then initial_food rnd (i + 2) snake (draw_food rnd i)
      else Some (food, i))"

declare initial_food.simps [code]

definition gameplay_init :: "rng \<Rightarrow> nat \<Rightarrow> (game \<times> nat) option" where
  "gameplay_init rnd i =
     (case initial_food rnd (i + 2) (initial_snake_x, initial_snake_y) (draw_food rnd i) of
        None \<Rightarrow> None
      | Some (food, j) \<Rightarrow>
          Some (\<lparr> snake_x = initial_snake_x, snake_y = initial_snake_y,
                  snake_x_change = SNAKE_BLOCK_SIZE, snake_y_change = 0,
                  last_key_pressed = K_RIGHT,
                  snake_segments = [],
                  snake_current_length = 1,
                  current_player_score = 0,
                  food_x = fst food, food_y = snd food,
                  game_is_over = False, quit_game_app = False \<rparr>, j))"

section \<open>One pass of the gameplay loop (lines 152-240)\<close>

subsection \<open>Input (lines 154-175)\<close>

definition handle_keydown :: "game \<Rightarrow> key \<Rightarrow> game" where
  "handle_keydown g k =
     (if k = K_LEFT \<and> last_key_pressed g \<noteq> K_RIGHT then
        g\<lparr>snake_x_change := - SNAKE_BLOCK_SIZE, snake_y_change := 0, last_key_pressed := K_LEFT\<rparr>
      else if k = K_RIGHT \<and> last_key_pressed g \<noteq> K_LEFT then
        g\<lparr>snake_x_change := SNAKE_BLOCK_SIZE, snake_y_change := 0, last_key_pressed := K_RIGHT\<rparr>
      else if k = K_UP \<and> last_key_pressed g \<noteq> K_DOWN then
        g\<lparr>snake_y_change := - SNAKE_BLOCK_SIZE, snake_x_change := 0, last_key_pressed := K_UP\<rparr>
      else if k = K_DOWN \<and> last_key_pressed g \<noteq> K_UP then
        g\<lparr>snake_y_change := SNAKE_BLOCK_SIZE, snake_x_change := 0, last_key_pressed := K_DOWN\<rparr>
      else g)"

fun play_event :: "game \<Rightarrow> event \<Rightarrow> game" where
  "play_event g QUIT = g\<lparr>quit_game_app := True\<rparr>"
| "play_event g (KEYDOWN k) = handle_keydown g k"
| "play_event g OTHER_EVENT = g"

definition poll_events :: "game \<Rightarrow> event list \<Rightarrow> game" where
  "poll_events g evs = foldl play_event g evs"

subsection \<open>Movement and collisions (lines 177-199)\<close>

definition move :: "game \<Rightarrow> game" where
  "move g = g\<lparr>snake_x := snake_x g + snake_x_change g, snake_y := snake_y g + snake_y_change g\<rparr>"

definition wall_check :: "game \<Rightarrow> game" where
  "wall_check g =
     (if snake_x g \<ge> SCREEN_WIDTH \<or> snake_x g < 0 \<or> snake_y g \<ge> SCREEN_HEIGHT \<or> snake_y g < 0
      then g\<lparr>game_is_over := True\<rparr> else g)"

text \<open>Lines 186-192: the head is appended; the oldest segment goes when the list is too long.\<close>

definition append_head :: "game \<Rightarrow> game" where
  "append_head g =
     (let segs = snake_segments g @ [(snake_x g, snake_y g)]
      in g\<lparr>snake_segments := (if int (length segs) > snake_current_length g then tl segs else segs)\<rparr>)"

text \<open>Lines 197-199: the loop over \<open>snake_segments[:-1]\<close>; it has no \<open>break\<close>.\<close>

fun self_hit_loop :: "(int \<times> int) list \<Rightarrow> int \<times> int \<Rightarrow> bool \<Rightarrow> bool" where
  "self_hit_loop [] snake_head_pos over = over"
| "self_hit_loop (segment # rest) snake_head_pos over =
     self_hit_loop rest snake_head_pos (if segment = snake_head_pos then True else over)"

definition self_check :: "game \<Rightarrow> game" where
  "self_check g =
     (if snake_current_length g > 1
      then g\<lparr>game_is_over :=
               self_hit_loop (butlast (snake_segments g)) (snake_x g, snake_y g) (game_is_over g)\<rparr>
      else g)"

text \<open>Lines 154-199 together: everything the pass does before it looks at \<open>game_is_over\<close>.\<close>

definition advance :: "game \<Rightarrow> event list \<Rightarrow> game" where
  "advance g evs = self_check (append_head (wall_check (move (poll_events g evs))))"

subsection \<open>Food consumption (lines 217-234)\<close>

text \<open>Lines 225-229: the scan of the segments, stopping at the first hit.\<close>

fun is_on_snake :: "(int \<times> int) list \<Rightarrow> int \<times> int \<Rightarrow> bool" where
  "is_on_snake [] food = False"
| "is_on_snake (segment # rest) food =
     (if fst segment = fst food \<and> snd segment = snd food then True else is_on_snake rest food)"

text \<open>
  Lines 221-231: \<open>while True\<close>, left only through the \<open>break\<close> of line 231. Not returning
  is \<open>None\<close>.
\<close>

partial_function (option) respawn_food ::
  "rng \<Rightarrow> nat \<Rightarrow> (int \<times> int) list \<Rightarrow> ((int \<times> int) \<times> nat) option" where
  "respawn_food rnd i segs =
     (if is_on_snake segs (draw_food rnd i)
      then respawn_food rnd (i + 2) segs
      else Some (draw_food rnd i, i + 2))"

declare respawn_food.simps [code]

definition eat_food :: "rng \<Rightarrow> game \<times> nat \<Rightarrow> (game \<times> nat) option" where
  "eat_food rnd gi =
     (case gi of (g, i) \<Rightarrow>
        if snake_x g = food_x g \<and> snake_y g = food_y g then
          (case respawn_food rnd i (snake_segments g) of
             None \<Rightarrow> None
           | Some (food, j) \<Rightarrow>
               Some (g\<lparr>food_x := fst food, food_y := snd food,
                       snake_current_length := snake_current_length g + 1,
                       current_player_score := current_player_score g + 10\<rparr>, j))
        else Some (g, i))"

text \<open>The whole pass; line 201 leaves the loop before the food is looked at.\<close>

definition tick :: "rng \<Rightarrow> game \<times> nat \<Rightarrow> event list \<Rightarrow> (game \<times> nat) option" where
  "tick rnd gi evs =
     (let g = advance (fst gi) evs
      in if game_is_over g then Some (g, snd gi) else eat_food rnd (g, snd gi))"

section \<open>The three screens of \<open>game_loop\<close>\<close>

text \<open>
  \<open>game_loop\<close> is an intro loop, the gameplay loop and a game-over loop, and ends in
  \<open>sys.exit()\<close>. The call of \<open>game_loop()\<close> in line 261 never returns normally (every path
  of \<open>game_loop\<close> ends in \<open>sys.exit()\<close>, in an exception or in that call), so what it does
  is what the callee does: it begins at the intro screen with fresh local variables, one
  activation of \<open>game_loop\<close> deeper on the call stack. Two things live outside the locals:
  the number of activations of \<open>game_loop\<close> on the stack (1 at program start, line 273) and
  the generator's call count.

  The interpreter bounds the call stack and raises \<open>RecursionError\<close> beyond the bound. The
  program does not set the bound and catches nothing, so the error ends it. The bound is a
  parameter here: \<open>stack_limit\<close> is the greatest number of activations of \<open>game_loop\<close>
  that can be on the stack and still call the drawing helpers (998 under the interpreter's
  default recursion limit of 1000, with the module's frame below and a helper's frame
  above). An activation beyond it fails at its call or in its first call of
  \<open>display_message\<close> (line 102), in both cases before it has looked at any event.
\<close>

datatype py_error = RecursionError

datatype phase = Intro | Playing game | GameOver game | Exited | Raised py_error

text \<open>Lines 110-119: the flags are \<open>(intro_active, quit_game_app)\<close>.\<close>

fun intro_event :: "bool \<times> bool \<Rightarrow> event \<Rightarrow> bool \<times> bool" where
  "intro_event (intro_active, quit) QUIT = (False, True)"
| "intro_event (intro_active, quit) (KEYDOWN k) =
     (if k = K_SPACE then (False, quit)
      else if k = K_q then (False, True)
      else (intro_active, quit))"
| "intro_event (intro_active, quit) OTHER_EVENT = (intro_active, quit)"

definition intro_frame :: "rng \<Rightarrow> nat \<Rightarrow> event list \<Rightarrow> (phase \<times> nat) option" where
  "intro_frame rnd i evs =
     (case foldl intro_event (True, False) evs of (intro_active, quit) \<Rightarrow>
        if intro_active \<and> \<not> quit then Some (Intro, i)
        else if quit then Some (Exited, i)
        else (case gameplay_init rnd i of
                None \<Rightarrow> None
              | Some (g, j) \<Rightarrow> Some (Playing g, j)))"

text \<open>
  Lines 152 and 244: after a pass, \<open>quit_game_app\<close> ends the program whatever else is set;
  otherwise \<open>game_is_over\<close> leads to the game-over screen.
\<close>

definition playing_frame :: "rng \<Rightarrow> game \<Rightarrow> nat \<Rightarrow> event list \<Rightarrow> (phase \<times> nat) option" where
  "playing_frame rnd g i evs =
     (case tick rnd (g, i) evs of
        None \<Rightarrow> None
      | Some (g', j) \<Rightarrow>
          if quit_game_app g' then Some (Exited, j)
          else if game_is_over g' then Some (GameOver g', j)
          else Some (Playing g', j))"

text \<open>
  Line 261, called with \<open>depth\<close> activations of \<open>game_loop\<close> on the stack: the result is
  the screen and the new depth.
\<close>

definition game_loop_call :: "nat \<Rightarrow> nat \<Rightarrow> phase \<times> nat" where
  "game_loop_call stack_limit depth =
     (if depth < stack_limit then (Intro, Suc depth) else (Raised RecursionError, depth))"

text \<open>
  Lines 252-264: \<open>K_c\<close> restarts at once, also when an earlier event of the same frame
  has set \<open>quit_game_app\<close>; the frame's remaining events are dropped with the old locals.
\<close>

fun game_over_events :: "nat \<Rightarrow> nat \<Rightarrow> game \<Rightarrow> event list \<Rightarrow> phase \<times> nat" where
  "game_over_events stack_limit depth g [] =
     (if quit_game_app g then (Exited, depth) else (GameOver g, depth))"
| "game_over_events stack_limit depth g (QUIT # evs) =
     game_over_events stack_limit depth (g\<lparr>quit_game_app := True\<rparr>) evs"
| "game_over_events stack_limit depth g (KEYDOWN k # evs) =
     (if k = K_q then game_over_events stack_limit depth (g\<lparr>quit_game_app := True\<rparr>) evs
      else if k = K_c then game_loop_call stack_limit depth
      else game_over_events stack_limit depth g evs)"
| "game_over_events stack_limit depth g (OTHER_EVENT # evs) =
     game_over_events stack_limit depth g evs"

text \<open>
  One frame of the program. Its state is the screen, the number of activations of
  \<open>game_loop\<close> on the stack and the generator's call count. After \<open>sys.exit()\<close> and after
  an uncaught error nothing happens any more.
\<close>

fun frame ::
  "nat \<Rightarrow> rng \<Rightarrow> phase \<times> nat \<times> nat \<Rightarrow> event list \<Rightarrow> (phase \<times> nat \<times> nat) option" where
  "frame stack_limit rnd (Intro, depth, i) evs =
     (case intro_frame rnd i evs of None \<Rightarrow> None | Some (p, j) \<Rightarrow> Some (p, depth, j))"
| "frame stack_limit rnd (Playing g, depth, i) evs =
     (case playing_frame rnd g i evs of None \<Rightarrow> None | Some (p, j) \<Rightarrow> Some (p, depth, j))"
| "frame stack_limit rnd (GameOver g, depth, i) evs =
     (case game_over_events stack_limit depth g evs of (p, depth') \<Rightarrow> Some (p, depth', i))"
| "frame stack_limit rnd (Exited, depth, i) evs = Some (Exited, depth, i)"
| "frame stack_limit rnd (Raised e, depth, i) evs = Some (Raised e, depth, i)"

text \<open>The program on the first frames of its input: \<open>None\<close> when a food loop never returns.\<close>

fun run ::
  "nat \<Rightarrow> rng \<Rightarrow> phase \<times> nat \<times> nat \<Rightarrow> event list list \<Rightarrow> (phase \<times> nat \<times> nat) option" where
  "run stack_limit rnd s [] = Some s"
| "run stack_limit rnd s (evs # frames) =
     (case frame stack_limit rnd s evs of
        None \<Rightarrow> None
      | Some s' \<Rightarrow> run stack_limit rnd s' frames)"

section \<open>Notions used to state the properties\<close>

text \<open>The cells a food draw can land on: 40 columns by 30 rows of 20-pixel blocks.\<close>

definition grid_cells :: "(int \<times> int) list" where
  "grid_cells =
     [(x * SNAKE_BLOCK_SIZE, y * SNAKE_BLOCK_SIZE).
        x \<leftarrow> [0 .. SCREEN_WIDTH div SNAKE_BLOCK_SIZE - 1],
        y \<leftarrow> [0 .. SCREEN_HEIGHT div SNAKE_BLOCK_SIZE - 1]]"

text \<open>The four arrow keys, the key of the opposite direction, and the step each key stands for.\<close>

definition arrow_key :: "key \<Rightarrow> bool" where
  "arrow_key k = (k = K_LEFT \<or> k = K_RIGHT \<or> k = K_UP \<or> k = K_DOWN)"

definition opposite_key :: "key \<Rightarrow> key" where
  "opposite_key k =
     (case k of K_LEFT \<Rightarrow> K_RIGHT | K_RIGHT \<Rightarrow> K_LEFT | K_UP \<Rightarrow> K_DOWN | K_DOWN \<Rightarrow> K_UP
      | _ \<Rightarrow> k)"

definition key_vector :: "key \<Rightarrow> int \<times> int" where
  "key_vector k =
     (case k of K_LEFT \<Rightarrow> (- SNAKE_BLOCK_SIZE, 0) | K_RIGHT \<Rightarrow> (SNAKE_BLOCK_SIZE, 0)
      | K_UP \<Rightarrow> (0, - SNAKE_BLOCK_SIZE) | K_DOWN \<Rightarrow> (0, SNAKE_BLOCK_SIZE)
      | _ \<Rightarrow> (0, 0))"

text \<open>What lines 191-192 make of a segment list whose allowed length is \<open>n\<close>.\<close>

definition settled :: "(int \<times> int) list \<Rightarrow> int \<Rightarrow> (int \<times> int) list" where
  "settled segs n = (if int (length segs) > n then tl segs else segs)"

text \<open>
  What holds of the variables whenever the gameplay loop is at its head or has been left:
  the segment list is as long as the allowed length or one shorter (after a meal), the
  score counts the meals, and the food lies on the grid, off the snake.
\<close>

definition session_inv :: "game \<Rightarrow> bool" where
  "session_inv g \<longleftrightarrow>
     1 \<le> snake_current_length g \<and>
     int (length (snake_segments g)) \<le> snake_current_length g \<and>
     snake_current_length g \<le> int (length (snake_segments g)) + 1 \<and>
     current_player_score g = 10 * (snake_current_length g - 1) \<and>
     (food_x g, food_y g) \<notin> set (snake_segments g) \<and>
     (food_x g, food_y g) \<noteq> (snake_x g, snake_y g) \<and>
     (food_x g, food_y g) \<in> set grid_cells"

fun phase_inv :: "phase \<Rightarrow> bool" where
  "phase_inv (Playing g) = (session_inv g \<and> \<not> game_is_over g \<and> \<not> quit_game_app g)"
| "phase_inv (GameOver g) = session_inv g"
| "phase_inv Intro = True"
| "phase_inv Exited = True"
| "phase_inv (Raised e) = True"

text \<open>
  A generator whose first two outcomes put the first food at \<open>(420, 300)\<close>, right in front
  of the snake, and whose later outcomes are all 0.
\<close>

definition food_ahead :: rng where
  "food_ahead k = (if k = 0 then 21 else if k = 1 then 15 else 0)"

text \<open>A generator that puts three foods in a row in front of the snake.\<close>

definition food_in_a_row :: rng where
  "food_in_a_row k =
     (if k = 0 then 21 else if k = 2 then 22 else if k = 4 then 23
      else if k = 1 \<or> k = 3 \<or> k = 5 then 15 else 0)"

text \<open>
  Three states of play-throughs used as examples: at the start with \<open>food_ahead\<close>, after
  its first meal, and at the end of the run of \<open>food_in_a_row\<close> that is lost.
\<close>

definition game_at_start :: game where
  "game_at_start =
     \<lparr>snake_x = 400, snake_y = 300, snake_x_change = 20, snake_y_change = 0,
      last_key_pressed = K_RIGHT, snake_segments = [],
      snake_current_length = 1, current_player_score = 0, food_x = 420, food_y = 300,
      game_is_over = False, quit_game_app = False\<rparr>"

definition game_after_meal :: game where
  "game_after_meal =
     \<lparr>snake_x = 420, snake_y = 300, snake_x_change = 20, snake_y_change = 0,
      last_key_pressed = K_RIGHT, snake_segments = [(420, 300)],
      snake_current_length = 2, current_player_score = 10, food_x = 0, food_y = 0,
      game_is_over = False, quit_game_app = False\<rparr>"

definition game_lost :: game where
  "game_lost =
     \<lparr>snake_x = 440, snake_y = 300, snake_x_change = - 20, snake_y_change = 0,
      last_key_pressed = K_LEFT,
      snake_segments = [(420, 300), (440, 300), (460, 300), (440, 300)],
      snake_current_length = 4, current_player_score = 30, food_x = 0, food_y = 0,
      game_is_over = True, quit_game_app = False\<rparr>"

section \<open>Evaluation\<close>

lemmas config = SCREEN_WIDTH_def SCREEN_HEIGHT_def SNAKE_BLOCK_SIZE_def

lemmas game_eval = intro_frame_def playing_frame_def game_loop_call_def gameplay_init_def
  initial_food.simps
  respawn_food.simps draw_food_def randrange_def initial_snake_x_def initial_snake_y_def
  tick_def eat_food_def advance_def self_check_def append_head_def wall_check_def move_def
  poll_events_def handle_keydown_def food_ahead_def food_in_a_row_def Let_def

lemmas fixtures = game_at_start_def game_after_meal_def game_lost_def

section \<open>Scanning the segments\<close>

lemma self_hit_loop_iff: "self_hit_loop segs h over \<longleftrightarrow> over \<or> h \<in> set segs"
  by (induction segs arbitrary: over) auto

lemma is_on_snake_iff: "is_on_snake segs food \<longleftrightarrow> food \<in> set segs"
  by (induction segs) (auto simp: prod_eq_iff)

section \<open>Drawing the food\<close>

lemma draw_food_in_grid: "draw_food rnd i \<in> set grid_cells"
proof -
  have "int (rnd i) mod 40 \<in> {0..39}" "int (rnd (i + 1)) mod 30 \<in> {0..29}"
    by simp_all
  then show ?thesis
    unfolding grid_cells_def draw_food_def randrange_def config
    by (simp del: atLeastAtMost_iff) blast
qed

lemma grid_cells_inside:
  "(x, y) \<in> set grid_cells \<Longrightarrow> 0 \<le> x \<and> x < SCREEN_WIDTH \<and> 0 \<le> y \<and> y < SCREEN_HEIGHT"
  by (auto simp: grid_cells_def config)

text \<open>A result of the respawn loop is the first draw that is off the snake.\<close>

lemma respawn_food_first:
  assumes "respawn_food rnd i segs = Some r"
  shows "\<exists>k. fst r = draw_food rnd (i + 2 * k) \<and> snd r = i + 2 * k + 2 \<and> fst r \<notin> set segs \<and>
           (\<forall>m < k. draw_food rnd (i + 2 * m) \<in> set segs)"
proof (rule respawn_food.raw_induct[where P = "\<lambda>rnd i segs r.
     \<exists>k. fst r = draw_food rnd (i + 2 * k) \<and> snd r = i + 2 * k + 2 \<and> fst r \<notin> set segs \<and>
           (\<forall>m < k. draw_food rnd (i + 2 * m) \<in> set segs)", OF _ assms])
  fix respawn' :: "rng \<Rightarrow> nat \<Rightarrow> (int \<times> int) list \<Rightarrow> ((int \<times> int) \<times> nat) option"
  fix rnd i segs r
  assume IH: "\<And>rnd i segs r. respawn' rnd i segs = Some r \<Longrightarrow>
     \<exists>k. fst r = draw_food rnd (i + 2 * k) \<and> snd r = i + 2 * k + 2 \<and> fst r \<notin> set segs \<and>
           (\<forall>m < k. draw_food rnd (i + 2 * m) \<in> set segs)"
  assume eq: "(if is_on_snake segs (draw_food rnd i) then respawn' rnd (i + 2) segs
      else Some (draw_food rnd i, i + 2)) = Some r"
  show "\<exists>k. fst r = draw_food rnd (i + 2 * k) \<and> snd r = i + 2 * k + 2 \<and> fst r \<notin> set segs \<and>
           (\<forall>m < k. draw_food rnd (i + 2 * m) \<in> set segs)"
  proof (cases "is_on_snake segs (draw_food rnd i)")
    case True
    with eq have "respawn' rnd (i + 2) segs = Some r" by simp
    from IH[OF this] obtain k where k:
      "fst r = draw_food rnd (i + 2 + 2 * k)" "snd r = i + 2 + 2 * k + 2" "fst r \<notin> set segs"
      "\<forall>m < k. draw_food rnd (i + 2 + 2 * m) \<in> set segs"
      by blast
    have "draw_food rnd (i + 2 * m) \<in> set segs" if "m < Suc k" for m
    proof (cases m)
      case 0
      with True show ?thesis by (simp add: is_on_snake_iff)
    next
      case (Suc m')
      with that k(4) have "draw_food rnd (i + 2 + 2 * m') \<in> set segs" by simp
      with Suc show ?thesis by (simp add: add.assoc)
    qed
    with k(1-3) have "fst r = draw_food rnd (i + 2 * Suc k) \<and> snd r = i + 2 * Suc k + 2 \<and>
        fst r \<notin> set segs \<and> (\<forall>m < Suc k. draw_food rnd (i + 2 * m) \<in> set segs)"
      by (simp add: add.assoc)
    then show ?thesis by blast
  next
    case False
    with eq have "fst r = draw_food rnd (i + 2 * 0) \<and> snd r = i + 2 * 0 + 2 \<and>
        fst r \<notin> set segs \<and> (\<forall>m < 0. draw_food rnd (i + 2 * m) \<in> set segs)"
      by (auto simp: is_on_snake_iff)
    then show ?thesis by blast
  qed
qed

lemma respawn_food_Some:
  assumes "respawn_food rnd i segs = Some r"
  shows "\<exists>k. r = (draw_food rnd (i + 2 * k), i + 2 * k + 2) \<and>
             draw_food rnd (i + 2 * k) \<notin> set segs"
proof -
  from respawn_food_first[OF assms] obtain k where
    k: "fst r = draw_food rnd (i + 2 * k)" "snd r = i + 2 * k + 2" "fst r \<notin> set segs"
    by blast
  from k(1,2) have "r = (draw_food rnd (i + 2 * k), i + 2 * k + 2)"
    by (simp add: prod_eq_iff)
  moreover from k(1,3) have "draw_food rnd (i + 2 * k) \<notin> set segs" by simp
  ultimately show ?thesis by blast
qed

text \<open>The respawn loop returns once some draw is off the snake.\<close>

lemma respawn_food_returns:
  "draw_food rnd (i + 2 * k) \<notin> set segs \<Longrightarrow> \<exists>r. respawn_food rnd i segs = Some r"
proof (induction k arbitrary: i)
  case 0
  then show ?case by (subst respawn_food.simps) (simp add: is_on_snake_iff)
next
  case (Suc k)
  from Suc.prems have "draw_food rnd (i + 2 + 2 * k) \<notin> set segs" by (simp add: add.assoc)
  from Suc.IH[OF this] obtain r where r: "respawn_food rnd (i + 2) segs = Some r" by blast
  have "respawn_food rnd i segs =
      (if is_on_snake segs (draw_food rnd i) then Some r else Some (draw_food rnd i, i + 2))"
    by (subst respawn_food.simps) (simp only: r)
  then show ?case by (cases "is_on_snake segs (draw_food rnd i)") simp_all
qed

lemma respawn_food_covered:
  assumes "set grid_cells \<subseteq> set segs"
  shows "respawn_food rnd i segs = None"
proof (cases "respawn_food rnd i segs")
  case None
  then show ?thesis .
next
  case (Some r)
  from respawn_food_Some[OF this] draw_food_in_grid assms show ?thesis by blast
qed

text \<open>
  Claim C2, as the code has it. The respawn loop of lines 221-231 has no guard for a full
  grid and reports nothing: when the segments cover every grid cell it never returns.
  Otherwise it returns exactly when some later draw of the generator lands on a cell that
  no segment occupies, and then with the first such draw.
\<close>

theorem respawn_food_returns_iff:
  "(set grid_cells \<subseteq> set segs \<longrightarrow> respawn_food rnd i segs = None) \<and>
   ((\<exists>r. respawn_food rnd i segs = Some r) \<longleftrightarrow>
      (\<exists>k. draw_food rnd (i + 2 * k) \<notin> set segs)) \<and>
   (\<forall>food j. respawn_food rnd i segs = Some (food, j) \<longrightarrow>
      (\<exists>k. food = draw_food rnd (i + 2 * k) \<and> j = i + 2 * k + 2 \<and> food \<notin> set segs \<and>
           (\<forall>m < k. draw_food rnd (i + 2 * m) \<in> set segs)))"
proof (intro conjI allI impI)
  assume "set grid_cells \<subseteq> set segs"
  then show "respawn_food rnd i segs = None" by (rule respawn_food_covered)
next
  show "(\<exists>r. respawn_food rnd i segs = Some r) \<longleftrightarrow>
      (\<exists>k. draw_food rnd (i + 2 * k) \<notin> set segs)"
    using respawn_food_Some[of rnd i segs] respawn_food_returns[of rnd i _ segs] by blast
next
  fix food j
  assume "respawn_food rnd i segs = Some (food, j)"
  from respawn_food_first[OF this]
  show "\<exists>k. food = draw_food rnd (i + 2 * k) \<and> j = i + 2 * k + 2 \<and> food \<notin> set segs \<and>
           (\<forall>m < k. draw_food rnd (i + 2 * m) \<in> set segs)"
    by simp
qed

theorem respawn_food_returns_iff_witness:
  "set grid_cells \<subseteq> set grid_cells \<and> respawn_food id 5 grid_cells = None \<and>
   draw_food id (0 + 2 * 1) \<notin> set [(0, 20)] \<and>
   respawn_food id 0 [(0, 20)] = Some ((40, 60), 4)"
  using respawn_food_returns_iff[of grid_cells id 5]
    respawn_food_returns_iff[of "[(0, 20)]" id 0]
  by (simp add: respawn_food.simps draw_food_def randrange_def config)

text \<open>
  Claim C2 as stated fails: with the snake on all 1200 cells of the grid the loop does
  not end and so reports nothing.
\<close>

theorem respawn_food_full_grid_counterexample:
  "respawn_food id 0 grid_cells = None"
  by (rule respawn_food_covered) simp

section \<open>Direction requests\<close>

text \<open>
  Claim C8. One arrow-key event, handled by lines 157-175: when the key is the opposite
  of the direction last accepted, nothing changes; every other arrow key becomes the
  direction, in the step variables and in \<open>last_key_pressed\<close>.
\<close>

theorem direction_request:
  "arrow_key k \<Longrightarrow>
     (last_key_pressed g = opposite_key k \<longrightarrow> play_event g (KEYDOWN k) = g) \<and>
     (last_key_pressed g \<noteq> opposite_key k \<longrightarrow>
        play_event g (KEYDOWN k) =
          g\<lparr>snake_x_change := fst (key_vector k), snake_y_change := snd (key_vector k),
            last_key_pressed := k\<rparr>)"
  by (auto simp: arrow_key_def opposite_key_def key_vector_def handle_keydown_def)

theorem direction_request_witness:
  "arrow_key K_LEFT \<and> arrow_key K_UP \<and>
   play_event \<lparr>snake_x = 100, snake_y = 100, snake_x_change = 20, snake_y_change = 0,
       last_key_pressed = K_RIGHT, snake_segments = [(100, 100)],
       snake_current_length = 1, current_player_score = 0, food_x = 0,
       food_y = 0, game_is_over = False, quit_game_app = False\<rparr> (KEYDOWN K_LEFT) =
     \<lparr>snake_x = 100, snake_y = 100, snake_x_change = 20, snake_y_change = 0,
       last_key_pressed = K_RIGHT, snake_segments = [(100, 100)],
       snake_current_length = 1, current_player_score = 0, food_x = 0,
       food_y = 0, game_is_over = False, quit_game_app = False\<rparr> \<and>
   play_event \<lparr>snake_x = 100, snake_y = 100, snake_x_change = 20, snake_y_change = 0,
       last_key_pressed = K_RIGHT, snake_segments = [(100, 100)],
       snake_current_length = 1, current_player_score = 0, food_x = 0,
       food_y = 0, game_is_over = False, quit_game_app = False\<rparr> (KEYDOWN K_UP) =
     \<lparr>snake_x = 100, snake_y = 100, snake_x_change = 0, snake_y_change = - 20,
       last_key_pressed = K_UP, snake_segments = [(100, 100)],
       snake_current_length = 1, current_player_score = 0, food_x = 0,
       food_y = 0, game_is_over = False, quit_game_app = False\<rparr>"
  using
    direction_request[of K_LEFT "\<lparr>snake_x = 100, snake_y = 100, snake_x_change = 20,
       snake_y_change = 0, last_key_pressed = K_RIGHT, snake_segments = [(100, 100)],
       snake_current_length = 1, current_player_score = 0, food_x = 0,
       food_y = 0, game_is_over = False, quit_game_app = False\<rparr>"]
    direction_request[of K_UP "\<lparr>snake_x = 100, snake_y = 100, snake_x_change = 20,
       snake_y_change = 0, last_key_pressed = K_RIGHT, snake_segments = [(100, 100)],
       snake_current_length = 1, current_player_score = 0, food_x = 0,
       food_y = 0, game_is_over = False, quit_game_app = False\<rparr>"]
  by (simp add: arrow_key_def opposite_key_def key_vector_def config)

section \<open>The two collision tests\<close>

text \<open>
  Claim C5. The wall test of lines 183-184, started with \<open>game_is_over\<close> unset, sets it
  exactly when the head is outside \<open>[0, SCREEN_WIDTH) \<times> [0, SCREEN_HEIGHT)\<close>, whatever the
  segments are.
\<close>

theorem wall_hit_iff:
  "game_is_over (wall_check (g\<lparr>game_is_over := False, snake_segments := body\<rparr>)) \<longleftrightarrow>
     (snake_x g < 0 \<or> snake_x g \<ge> SCREEN_WIDTH \<or> snake_y g < 0 \<or> snake_y g \<ge> SCREEN_HEIGHT)"
  by (auto simp add: wall_check_def)

text \<open>
  Claim C4. The self test of lines 196-199, started with \<open>game_is_over\<close> unset on a snake
  whose segments are \<open>body\<close> followed by the head, sets it exactly when the head is among
  \<open>body\<close> and the allowed length is above 1; at length 1 it changes nothing, whatever the
  segments are.
\<close>

theorem self_hit_iff:
  "(game_is_over (self_check (g\<lparr>snake_x := hx, snake_y := hy,
        snake_segments := body @ [(hx, hy)], game_is_over := False\<rparr>)) \<longleftrightarrow>
      ((hx, hy) \<in> set body \<and> snake_current_length g > 1)) \<and>
   self_check (g\<lparr>snake_current_length := 1\<rparr>) = g\<lparr>snake_current_length := 1\<rparr>"
  by (simp add: self_check_def self_hit_loop_iff)

section \<open>The corner scenario\<close>


text \<open>
  Claim C3, as the code has it. Head at \<open>(0, 0)\<close>, moving right: a Left request in the pass
  is ignored, the head goes on to \<open>(20, 0)\<close>, which is inside the screen, so the wall test
  does not fire; the pass ends the game only if \<open>(20, 0)\<close> is a body segment of a snake
  longer than 1.
\<close>

theorem left_request_at_origin:
  assumes "snake_x g = 0" "snake_y g = 0" "last_key_pressed g = K_RIGHT"
    "snake_x_change g = SNAKE_BLOCK_SIZE" "snake_y_change g = 0" "\<not> game_is_over g"
  shows "poll_events g [KEYDOWN K_LEFT] = g \<and>
         snake_x (advance g [KEYDOWN K_LEFT]) = 20 \<and>
         snake_y (advance g [KEYDOWN K_LEFT]) = 0 \<and>
         \<not> game_is_over (wall_check (move (poll_events g [KEYDOWN K_LEFT]))) \<and>
         (game_is_over (advance g [KEYDOWN K_LEFT]) \<longleftrightarrow>
            snake_current_length g > 1 \<and>
            (20, 0) \<in> set (butlast (snake_segments (advance g [KEYDOWN K_LEFT]))))"
  using assms
  by (simp add: advance_def self_check_def append_head_def wall_check_def move_def
      poll_events_def handle_keydown_def Let_def self_hit_loop_iff config)

theorem left_request_at_origin_witness:
  "advance \<lparr>snake_x = 0, snake_y = 0, snake_x_change = 20, snake_y_change = 0,
       last_key_pressed = K_RIGHT, snake_segments = [(0, 40), (0, 20), (0, 0)],
       snake_current_length = 3, current_player_score = 20, food_x = 400,
       food_y = 300, game_is_over = False, quit_game_app = False\<rparr> [KEYDOWN K_LEFT] =
     \<lparr>snake_x = 20, snake_y = 0, snake_x_change = 20, snake_y_change = 0,
       last_key_pressed = K_RIGHT, snake_segments = [(0, 20), (0, 0), (20, 0)],
       snake_current_length = 3, current_player_score = 20, food_x = 400,
       food_y = 300, game_is_over = False, quit_game_app = False\<rparr>"
  using left_request_at_origin[of "\<lparr>snake_x = 0, snake_y = 0, snake_x_change = 20,
       snake_y_change = 0, last_key_pressed = K_RIGHT,
       snake_segments = [(0, 40), (0, 20), (0, 0)],
       snake_current_length = 3, current_player_score = 20, food_x = 400,
       food_y = 300, game_is_over = False, quit_game_app = False\<rparr>"]
  by (simp add: game_eval config)

text \<open>
  Claim C3 as stated fails: from head \<open>(0, 0)\<close> moving right, the pass with a Left request
  puts the head on \<open>(20, 0)\<close>, not \<open>(-20, 0)\<close>, and the game goes on.
\<close>

theorem left_request_at_origin_counterexample:
  "snake_x (advance \<lparr>snake_x = 0, snake_y = 0, snake_x_change = 20, snake_y_change = 0,
       last_key_pressed = K_RIGHT, snake_segments = [(0, 0)],
       snake_current_length = 1, current_player_score = 0, food_x = 400,
       food_y = 300, game_is_over = False, quit_game_app = False\<rparr> [KEYDOWN K_LEFT]) = 20 \<and>
   snake_y (advance \<lparr>snake_x = 0, snake_y = 0, snake_x_change = 20, snake_y_change = 0,
       last_key_pressed = K_RIGHT, snake_segments = [(0, 0)],
       snake_current_length = 1, current_player_score = 0, food_x = 400,
       food_y = 300, game_is_over = False, quit_game_app = False\<rparr> [KEYDOWN K_LEFT]) = 0 \<and>
   \<not> game_is_over (advance \<lparr>snake_x = 0, snake_y = 0, snake_x_change = 20,
       snake_y_change = 0, last_key_pressed = K_RIGHT, snake_segments = [(0, 0)],
       snake_current_length = 1, current_player_score = 0, food_x = 400,
       food_y = 300, game_is_over = False, quit_game_app = False\<rparr> [KEYDOWN K_LEFT])"
  by (simp add: game_eval config)

text \<open>
  The mirrored scenario does end at the wall: moving left from \<open>(0, 0)\<close>, a Right request is
  ignored and the head leaves the screen at \<open>(-20, 0)\<close>.
\<close>

lemma right_request_at_origin:
  assumes "snake_x g = 0" "snake_y g = 0" "last_key_pressed g = K_LEFT"
    "snake_x_change g = - SNAKE_BLOCK_SIZE" "snake_y_change g = 0"
  shows "poll_events g [KEYDOWN K_RIGHT] = g \<and>
         snake_x (advance g [KEYDOWN K_RIGHT]) = - 20 \<and>
         snake_y (advance g [KEYDOWN K_RIGHT]) = 0 \<and>
         game_is_over (advance g [KEYDOWN K_RIGHT])"
  using assms
  by (simp add: advance_def self_check_def append_head_def wall_check_def move_def
      poll_events_def handle_keydown_def Let_def self_hit_loop_iff config)

section \<open>Two keys in one frame\<close>

text \<open>
  Claim C1 fails on the code. Every accepted key overwrites \<open>last_key_pressed\<close> at once
  (lines 163, 167, 171, 175), so the reversal test of a later event of the same frame
  compares with the key before it, not with the direction of the last move. After Space
  and one pass to the right, the frame \<open>[Up, Left]\<close> turns the snake from right to left.
\<close>

theorem reversal_within_one_frame:
  "run 998 (\<lambda>_. 0) (Intro, 1, 0) [[KEYDOWN K_SPACE], []] =
     Some (Playing \<lparr>snake_x = 420, snake_y = 300, snake_x_change = 20, snake_y_change = 0,
       last_key_pressed = K_RIGHT, snake_segments = [(420, 300)],
       snake_current_length = 1, current_player_score = 0, food_x = 0,
       food_y = 0, game_is_over = False, quit_game_app = False\<rparr>, 1, 2) \<and>
   run 998 (\<lambda>_. 0) (Intro, 1, 0)
       [[KEYDOWN K_SPACE], [], [KEYDOWN K_UP, KEYDOWN K_LEFT]] =
     Some (Playing \<lparr>snake_x = 400, snake_y = 300, snake_x_change = - 20, snake_y_change = 0,
       last_key_pressed = K_LEFT, snake_segments = [(400, 300)],
       snake_current_length = 1, current_player_score = 0, food_x = 0,
       food_y = 0, game_is_over = False, quit_game_app = False\<rparr>, 1, 2)"
  by (simp add: game_eval config)

text \<open>
  With a body behind the head the same two keys end the game: after three meals the head
  turns back into its own neck at \<open>(440, 300)\<close>.
\<close>

lemma reversal_into_own_body:
  "run 998 food_in_a_row (Intro, 1, 0)
     [[KEYDOWN K_SPACE], [], [], [], [KEYDOWN K_UP, KEYDOWN K_LEFT]] =
     Some (GameOver \<lparr>snake_x = 440, snake_y = 300, snake_x_change = - 20, snake_y_change = 0,
       last_key_pressed = K_LEFT,
       snake_segments = [(420, 300), (440, 300), (460, 300), (440, 300)],
       snake_current_length = 4, current_player_score = 30, food_x = 0,
       food_y = 0, game_is_over = True, quit_game_app = False\<rparr>, 1, 8)"
  by (simp add: game_eval config)

section \<open>What a pass keeps and what it changes\<close>

lemma play_event_keeps:
  "snake_x (play_event g e) = snake_x g"
  "snake_y (play_event g e) = snake_y g"
  "snake_segments (play_event g e) = snake_segments g"
  "snake_current_length (play_event g e) = snake_current_length g"
  "current_player_score (play_event g e) = current_player_score g"
  "food_x (play_event g e) = food_x g"
  "food_y (play_event g e) = food_y g"
  "game_is_over (play_event g e) = game_is_over g"
  by (cases e; simp add: handle_keydown_def)+

lemma poll_events_keeps:
  "snake_x (poll_events g evs) = snake_x g"
  "snake_y (poll_events g evs) = snake_y g"
  "snake_segments (poll_events g evs) = snake_segments g"
  "snake_current_length (poll_events g evs) = snake_current_length g"
  "current_player_score (poll_events g evs) = current_player_score g"
  "food_x (poll_events g evs) = food_x g"
  "food_y (poll_events g evs) = food_y g"
  "game_is_over (poll_events g evs) = game_is_over g"
  unfolding poll_events_def
  by (induction evs arbitrary: g; simp add: play_event_keeps)+

lemma advance_keeps:
  "snake_current_length (advance g evs) = snake_current_length g"
  "current_player_score (advance g evs) = current_player_score g"
  "food_x (advance g evs) = food_x g"
  "food_y (advance g evs) = food_y g"
  by (simp_all add: advance_def self_check_def append_head_def wall_check_def move_def
      poll_events_keeps Let_def)

lemma advance_segments:
  "snake_segments (advance g evs) =
     settled (snake_segments g @ [(snake_x (advance g evs), snake_y (advance g evs))])
       (snake_current_length g)"
  by (simp add: advance_def self_check_def append_head_def wall_check_def move_def
      poll_events_keeps Let_def settled_def)

lemma advance_game_is_over:
  "game_is_over (advance g evs) \<longleftrightarrow>
     game_is_over g \<or>
     (snake_x (advance g evs) \<ge> SCREEN_WIDTH \<or> snake_x (advance g evs) < 0 \<or>
      snake_y (advance g evs) \<ge> SCREEN_HEIGHT \<or> snake_y (advance g evs) < 0) \<or>
     (snake_current_length g > 1 \<and>
      (snake_x (advance g evs), snake_y (advance g evs))
        \<in> set (butlast (snake_segments (advance g evs))))"
  by (auto simp add: advance_def self_check_def append_head_def wall_check_def move_def
      poll_events_keeps Let_def self_hit_loop_iff)

lemma set_settled: "set (settled segs n) \<subseteq> set segs"
  by (cases segs) (auto simp: settled_def)

lemma butlast_settled: "set (butlast (settled (segs @ [h]) n)) \<subseteq> set segs"
proof (cases segs)
  case Nil
  then show ?thesis by (simp add: settled_def)
next
  case (Cons s rest)
  then show ?thesis
    by (auto simp: settled_def butlast_append dest: in_set_butlastD)
qed

lemma length_settled:
  "int (length segs) \<le> n \<Longrightarrow> n \<le> int (length segs) + 1 \<Longrightarrow>
     int (length (settled (segs @ [h]) n)) = n"
  by (auto simp: settled_def)

lemma head_in_settled:
  "1 \<le> n \<Longrightarrow> int (length segs) \<le> n \<Longrightarrow> h \<in> set (settled (segs @ [h]) n)"
  by (cases segs) (auto simp: settled_def)

text \<open>The length and the score change only in a pass that reaches the food, and then together.\<close>

lemma tick_grows:
  assumes "tick rnd (g, i) evs = Some (g', j)"
  shows "if \<not> game_is_over (advance g evs) \<and>
            snake_x (advance g evs) = food_x g \<and> snake_y (advance g evs) = food_y g
         then snake_current_length g' = snake_current_length g + 1 \<and>
              current_player_score g' = current_player_score g + 10
         else snake_current_length g' = snake_current_length g \<and>
              current_player_score g' = current_player_score g"
  using assms
  by (auto simp: tick_def eat_food_def advance_keeps Let_def split: if_splits option.splits)

section \<open>The invariant of a play-through\<close>

lemma advance_length:
  assumes "session_inv g"
  shows "int (length (snake_segments (advance g evs))) = snake_current_length (advance g evs)"
  using assms length_settled[of "snake_segments g" "snake_current_length g"]
  by (simp add: session_inv_def advance_segments[of g evs] advance_keeps)

text \<open>A pass that does not reach the food, or ends the game, keeps the invariant.\<close>

lemma advance_inv:
  assumes inv: "session_inv g" and alive: "\<not> game_is_over g"
    and miss: "game_is_over (advance g evs) \<or>
               (snake_x (advance g evs), snake_y (advance g evs)) \<noteq> (food_x g, food_y g)"
  shows "session_inv (advance g evs)"
proof -
  let ?a = "advance g evs"
  let ?h = "(snake_x ?a, snake_y ?a)"
  let ?f = "(food_x g, food_y g)"
  from inv have len: "1 \<le> snake_current_length g"
      "int (length (snake_segments g)) \<le> snake_current_length g"
      "snake_current_length g \<le> int (length (snake_segments g)) + 1"
    and score: "current_player_score g = 10 * (snake_current_length g - 1)"
    and food: "?f \<notin> set (snake_segments g)" "?f \<in> set grid_cells"
    by (simp_all add: session_inv_def)
  have segs: "snake_segments ?a = settled (snake_segments g @ [?h]) (snake_current_length g)"
    by (rule advance_segments)
  have neq: "?h \<noteq> ?f"
  proof (cases "game_is_over ?a")
    case False
    with miss show ?thesis by blast
  next
    case True
    with alive consider
      (wall) "snake_x ?a \<ge> SCREEN_WIDTH \<or> snake_x ?a < 0 \<or>
              snake_y ?a \<ge> SCREEN_HEIGHT \<or> snake_y ?a < 0"
      | (self) "?h \<in> set (butlast (snake_segments ?a))"
      using advance_game_is_over[of g evs] by blast
    then show ?thesis
    proof cases
      case wall
      with grid_cells_inside[OF food(2)] show ?thesis by auto
    next
      case self
      with butlast_settled segs have "?h \<in> set (snake_segments g)" by fastforce
      with food(1) show ?thesis by auto
    qed
  qed
  have "set (snake_segments ?a) \<subseteq> set (snake_segments g) \<union> {?h}"
    using set_settled[of "snake_segments g @ [?h]" "snake_current_length g"] segs by simp
  with food(1) neq have "?f \<notin> set (snake_segments ?a)" by auto
  moreover have "int (length (snake_segments ?a)) = snake_current_length g"
    using length_settled[OF len(2,3)] segs by simp
  ultimately show ?thesis
    using len score food(2) neq by (auto simp add: session_inv_def advance_keeps)
qed

lemma tick_inv:
  assumes inv: "session_inv g" and alive: "\<not> game_is_over g"
    and tick: "tick rnd (g, i) evs = Some (g', j)"
  shows "session_inv g'"
proof -
  let ?a = "advance g evs"
  let ?h = "(snake_x ?a, snake_y ?a)"
  show ?thesis
  proof (cases "game_is_over ?a \<or> ?h \<noteq> (food_x g, food_y g)")
    case True
    with tick have "g' = ?a"
      by (auto simp: tick_def eat_food_def advance_keeps Let_def split: if_splits)
    with advance_inv[OF inv alive True] show ?thesis by simp
  next
    case False
    then have eaten: "\<not> game_is_over ?a" "snake_x ?a = food_x g" "snake_y ?a = food_y g"
      by auto
    with tick obtain food where
      sp: "respawn_food rnd i (snake_segments ?a) = Some (food, j)" and
      g': "g' = ?a\<lparr>food_x := fst food, food_y := snd food,
                   snake_current_length := snake_current_length ?a + 1,
                   current_player_score := current_player_score ?a + 10\<rparr>"
      by (auto simp: tick_def eat_food_def advance_keeps Let_def split: option.splits)
    from respawn_food_Some[OF sp] draw_food_in_grid
    have free: "food \<notin> set (snake_segments ?a)" and grid: "food \<in> set grid_cells" by auto
    from inv have len: "1 \<le> snake_current_length g"
      "int (length (snake_segments g)) \<le> snake_current_length g"
      and score: "current_player_score g = 10 * (snake_current_length g - 1)"
      by (simp_all add: session_inv_def)
    have "?h \<in> set (snake_segments ?a)"
      using head_in_settled[OF len] advance_segments[of g evs] by simp
    with free have "food \<noteq> ?h" by auto
    with free grid len score advance_length[OF inv, of evs] show ?thesis
      by (simp add: g' session_inv_def advance_keeps)
  qed
qed

section \<open>The start of a play-through\<close>

lemma initial_food_Some:
  assumes "initial_food rnd i snake food = Some r"
  shows "fst r \<noteq> snake \<and> (fst r = food \<or> fst r \<in> range (draw_food rnd))"
proof (rule initial_food.raw_induct[where P = "\<lambda>rnd i snake food r.
     fst r \<noteq> snake \<and> (fst r = food \<or> fst r \<in> range (draw_food rnd))", OF _ assms])
  fix initial_food' ::
    "rng \<Rightarrow> nat \<Rightarrow> int \<times> int \<Rightarrow> int \<times> int \<Rightarrow> ((int \<times> int) \<times> nat) option"
  fix rnd i snake food r
  assume IH: "\<And>rnd i snake food r. initial_food' rnd i snake food = Some r \<Longrightarrow>
     fst r \<noteq> snake \<and> (fst r = food \<or> fst r \<in> range (draw_food rnd))"
  assume eq: "(if fst food = fst snake \<and> snd food = snd snake
      then initial_food' rnd (i + 2) snake (draw_food rnd i) else Some (food, i)) = Some r"
  show "fst r \<noteq> snake \<and> (fst r = food \<or> fst r \<in> range (draw_food rnd))"
  proof (cases "fst food = fst snake \<and> snd food = snd snake")
    case True
    with eq have "initial_food' rnd (i + 2) snake (draw_food rnd i) = Some r" by simp
    from IH[OF this] show ?thesis by auto
  next
    case False
    with eq have "r = (food, i)" by simp
    with False show ?thesis by (auto simp: prod_eq_iff)
  qed
qed

lemma gameplay_init_fresh:
  assumes "gameplay_init rnd i = Some (g, j)"
  shows "snake_x g = initial_snake_x" "snake_y g = initial_snake_y"
    "snake_x_change g = SNAKE_BLOCK_SIZE" "snake_y_change g = 0" "last_key_pressed g = K_RIGHT"
    "snake_segments g = []" "snake_current_length g = 1" "current_player_score g = 0"
    "\<not> game_is_over g" "\<not> quit_game_app g"
  using assms by (auto simp: gameplay_init_def split: option.splits)

lemma gameplay_init_food:
  assumes "gameplay_init rnd i = Some (g, j)"
  shows "(food_x g, food_y g) \<noteq> (snake_x g, snake_y g)" "(food_x g, food_y g) \<in> set grid_cells"
proof -
  from assms obtain food where
    f: "initial_food rnd (i + 2) (initial_snake_x, initial_snake_y) (draw_food rnd i) =
          Some (food, j)"
    and g: "food_x g = fst food" "food_y g = snd food"
    by (auto simp: gameplay_init_def split: option.splits)
  from initial_food_Some[OF f] draw_food_in_grid
  have "food \<noteq> (initial_snake_x, initial_snake_y)" "food \<in> set grid_cells" by auto
  with g gameplay_init_fresh(1,2)[OF assms]
  show "(food_x g, food_y g) \<noteq> (snake_x g, snake_y g)" "(food_x g, food_y g) \<in> set grid_cells"
    by simp_all
qed

lemma gameplay_init_inv:
  assumes "gameplay_init rnd i = Some (g, j)"
  shows "session_inv g"
  using gameplay_init_fresh[OF assms] gameplay_init_food[OF assms]
  by (simp add: session_inv_def)

section \<open>The game-over screen\<close>

lemma game_over_events_quit:
  "quit_game_app g \<Longrightarrow>
     game_over_events stack_limit depth g evs = (Exited, depth) \<or>
     game_over_events stack_limit depth g evs = game_loop_call stack_limit depth"
  by (induction stack_limit depth g evs rule: game_over_events.induct) auto

lemma game_over_events_cases:
  "game_over_events stack_limit depth g evs = (Exited, depth) \<or>
   game_over_events stack_limit depth g evs = game_loop_call stack_limit depth \<or>
   game_over_events stack_limit depth g evs = (GameOver g, depth)"
proof (induction stack_limit depth g evs rule: game_over_events.induct)
  case (2 stack_limit depth g evs)
  from game_over_events_quit[of "g\<lparr>quit_game_app := True\<rparr>" stack_limit depth evs]
  show ?case by auto
next
  case (3 stack_limit depth g k evs)
  with game_over_events_quit[of "g\<lparr>quit_game_app := True\<rparr>" stack_limit depth evs]
  show ?case by auto
qed auto

lemma game_over_events_replay:
  "KEYDOWN K_c \<in> set evs \<Longrightarrow>
     game_over_events stack_limit depth g evs = game_loop_call stack_limit depth"
  by (induction stack_limit depth g evs rule: game_over_events.induct) auto

lemma game_over_events_inv:
  "session_inv g \<Longrightarrow> phase_inv (fst (game_over_events stack_limit depth g evs))"
  using game_over_events_cases[of stack_limit depth g evs]
  by (auto simp: game_loop_call_def)

section \<open>The invariant along a run\<close>

lemma frame_inv:
  assumes "phase_inv (fst s)" "frame stack_limit rnd s evs = Some s'"
  shows "phase_inv (fst s')"
proof (cases s)
  case (fields p depth i)
  show ?thesis
  proof (cases p)
    case Intro
    with fields assms(2) show ?thesis
      by (auto simp: intro_frame_def gameplay_init_inv gameplay_init_fresh
          split: prod.splits if_splits option.splits)
  next
    case (Playing g)
    with fields assms(1) have g: "session_inv g" "\<not> game_is_over g" by simp_all
    from Playing fields assms(2) obtain g' j where t: "tick rnd (g, i) evs = Some (g', j)"
      by (auto simp: playing_frame_def split: option.splits)
    with Playing fields assms(2)
    have s': "s' = (if quit_game_app g' then (Exited, depth, j)
                    else if game_is_over g' then (GameOver g', depth, j)
                    else (Playing g', depth, j))"
      by (auto simp: playing_frame_def split: if_splits)
    from tick_inv[OF g t] s' show ?thesis by simp
  next
    case (GameOver g)
    with fields assms game_over_events_inv[of g stack_limit depth evs] show ?thesis
      by (auto split: prod.splits)
  next
    case Exited
    with fields assms(2) show ?thesis by auto
  next
    case (Raised e)
    with fields assms(2) show ?thesis by auto
  qed
qed

lemma run_inv:
  "phase_inv (fst s) \<Longrightarrow> run stack_limit rnd s frames = Some s' \<Longrightarrow> phase_inv (fst s')"
proof (induction frames arbitrary: s)
  case Nil
  then show ?case by simp
next
  case (Cons evs frames)
  from Cons.prems(2) obtain s1 where
    s1: "frame stack_limit rnd s evs = Some s1" "run stack_limit rnd s1 frames = Some s'"
    by (auto split: option.splits)
  from frame_inv[OF Cons.prems(1) s1(1)] s1(2) show ?case by (rule Cons.IH)
qed

lemma session_inv_reached:
  assumes "run stack_limit rnd (Intro, depth, i) frames = Some (p, depth', j)"
    "p = Playing g \<or> p = GameOver g"
  shows "session_inv g"
  using run_inv[of "(Intro, depth, i)" stack_limit rnd frames "(p, depth', j)"] assms by auto

section \<open>Length, score and food along a run\<close>

text \<open>
  Claim C6. In every pass of the gameplay loop that a run from program start reaches,
  once the head is appended and the list trimmed (lines 186-192) the number of segments
  equals \<open>snake_current_length\<close>; and no pass makes \<open>snake_current_length\<close> smaller.
  This holds whatever the stack limit is and however many replays lie before the pass.
\<close>

theorem segments_match_length:
  assumes "run stack_limit rnd (Intro, depth, i) frames = Some (Playing g, depth', j)"
  shows "int (length (snake_segments (advance g evs))) = snake_current_length (advance g evs) \<and>
         (\<forall>g' j'. tick rnd (g, j) evs = Some (g', j') \<longrightarrow>
            snake_current_length g \<le> snake_current_length g')"
proof
  from assms have "session_inv g" by (rule session_inv_reached) simp
  then show "int (length (snake_segments (advance g evs))) =
      snake_current_length (advance g evs)"
    by (rule advance_length)
next
  show "\<forall>g' j'. tick rnd (g, j) evs = Some (g', j') \<longrightarrow>
      snake_current_length g \<le> snake_current_length g'"
    using tick_grows[of rnd g j evs] by (auto split: if_splits)
qed

theorem segments_match_length_witness:
  "run 998 food_ahead (Intro, 1, 0) [[KEYDOWN K_SPACE]] = Some (Playing game_at_start, 1, 2) \<and>
   snake_segments (advance game_at_start []) = [(420, 300)] \<and>
   snake_current_length (advance game_at_start []) = 1 \<and>
   tick food_ahead (game_at_start, 2) [] = Some (game_after_meal, 4) \<and>
   snake_current_length game_at_start \<le> snake_current_length game_after_meal"
  using segments_match_length[where stack_limit = 998 and rnd = food_ahead and depth = 1 and
      i = 0 and frames = "[[KEYDOWN K_SPACE]]" and g = game_at_start and depth' = 1 and
      j = 2 and evs = "[]"]
  by (simp add: fixtures game_eval config)

text \<open>
  Claim C7. Between the passes of a run from program start, and on the game-over screen,
  the food is on no segment and not on the head position (the initial placement included,
  when there are no segments yet); the respawn loop returns no cell of the segments it is
  given, and the initial loop does not return the snake's position.
\<close>

theorem food_off_snake:
  "(run stack_limit rnd (Intro, depth, i) frames = Some (p, depth', j) \<and>
    (p = Playing g \<or> p = GameOver g) \<longrightarrow>
      (food_x g, food_y g) \<notin> set (snake_segments g) \<and>
      (food_x g, food_y g) \<noteq> (snake_x g, snake_y g)) \<and>
   (respawn_food rndA iA segs = Some (foodA, jA) \<longrightarrow> foodA \<notin> set segs) \<and>
   (initial_food rndB iB snake drawn = Some (foodB, jB) \<longrightarrow> foodB \<noteq> snake)"
proof (intro conjI impI)
  assume "run stack_limit rnd (Intro, depth, i) frames = Some (p, depth', j) \<and>
    (p = Playing g \<or> p = GameOver g)"
  then have "session_inv g" using session_inv_reached by blast
  then show "(food_x g, food_y g) \<notin> set (snake_segments g)"
    "(food_x g, food_y g) \<noteq> (snake_x g, snake_y g)"
    by (simp_all add: session_inv_def)
next
  assume "respawn_food rndA iA segs = Some (foodA, jA)"
  from respawn_food_Some[OF this] show "foodA \<notin> set segs" by auto
next
  assume "initial_food rndB iB snake drawn = Some (foodB, jB)"
  from initial_food_Some[OF this] show "foodB \<noteq> snake" by simp
qed

theorem food_off_snake_witness:
  "run 998 food_ahead (Intro, 1, 0) [[KEYDOWN K_SPACE], []] =
     Some (Playing game_after_meal, 1, 4) \<and>
   (food_x game_after_meal, food_y game_after_meal) \<notin> set (snake_segments game_after_meal) \<and>
   respawn_food id 0 [(0, 20)] = Some ((40, 60), 4) \<and>
   initial_food id 2 (400, 300) (400, 300) = Some ((40, 60), 4)"
  using food_off_snake[where stack_limit = 998 and rnd = food_ahead and depth = 1 and i = 0 and
      frames = "[[KEYDOWN K_SPACE], []]" and p = "Playing game_after_meal" and depth' = 1 and
      j = 4 and g = game_after_meal and rndA = id and iA = 0 and segs = "[(0, 20)]" and
      foodA = "(40, 60)" and jA = 4 and rndB = id and iB = 2 and snake = "(400, 300)" and
      drawn = "(400, 300)" and foodB = "(40, 60)" and jB = 4]
  by (simp add: fixtures game_eval config)

text \<open>
  Claim C10. A play-through starts with score 0 and length 1; wherever a run from program
  start stands in or after a play-through, the score is ten times the length minus one;
  and a pass changes the two only when the head reaches the food without a collision,
  adding 1 to the length and 10 to the score.
\<close>

theorem score_tracks_length:
  "(gameplay_init rnd i = Some (start, k) \<longrightarrow>
      current_player_score start = 0 \<and> snake_current_length start = 1) \<and>
   (run stack_limit rnd (Intro, depth, i) frames = Some (p, depth', j) \<and>
    (p = Playing g \<or> p = GameOver g) \<longrightarrow>
      current_player_score g = 10 * (snake_current_length g - 1)) \<and>
   (tick rnd (ga, ja) evs = Some (gb, jb) \<longrightarrow>
      (if \<not> game_is_over (advance ga evs) \<and>
          snake_x (advance ga evs) = food_x ga \<and> snake_y (advance ga evs) = food_y ga
       then snake_current_length gb = snake_current_length ga + 1 \<and>
            current_player_score gb = current_player_score ga + 10
       else snake_current_length gb = snake_current_length ga \<and>
            current_player_score gb = current_player_score ga))"
proof (intro conjI impI)
  assume "gameplay_init rnd i = Some (start, k)"
  from gameplay_init_fresh(7,8)[OF this]
  show "current_player_score start = 0" "snake_current_length start = 1" by simp_all
next
  assume "run stack_limit rnd (Intro, depth, i) frames = Some (p, depth', j) \<and>
    (p = Playing g \<or> p = GameOver g)"
  then have "session_inv g" using session_inv_reached by blast
  then show "current_player_score g = 10 * (snake_current_length g - 1)"
    by (simp add: session_inv_def)
next
  assume "tick rnd (ga, ja) evs = Some (gb, jb)"
  then show "if \<not> game_is_over (advance ga evs) \<and>
          snake_x (advance ga evs) = food_x ga \<and> snake_y (advance ga evs) = food_y ga
       then snake_current_length gb = snake_current_length ga + 1 \<and>
            current_player_score gb = current_player_score ga + 10
       else snake_current_length gb = snake_current_length ga \<and>
            current_player_score gb = current_player_score ga"
    by (rule tick_grows)
qed

theorem score_tracks_length_witness:
  "gameplay_init food_ahead 0 = Some (game_at_start, 2) \<and>
   current_player_score game_at_start = 0 \<and> snake_current_length game_at_start = 1 \<and>
   run 998 food_ahead (Intro, 1, 0) [[KEYDOWN K_SPACE], []] =
     Some (Playing game_after_meal, 1, 4) \<and>
   tick food_ahead (game_at_start, 2) [] = Some (game_after_meal, 4) \<and>
   snake_x (advance game_at_start []) = food_x game_at_start \<and>
   current_player_score game_after_meal = 10 \<and> snake_current_length game_after_meal = 2"
  using score_tracks_length[where stack_limit = 998 and rnd = food_ahead and depth = 1 and
      i = 0 and start = game_at_start and
      k = 2 and frames = "[[KEYDOWN K_SPACE], []]" and p = "Playing game_after_meal" and
      depth' = 1 and j = 4 and g = game_after_meal and ga = game_at_start and ja = 2 and
      evs = "[]" and gb = game_after_meal and jb = 4]
  by (simp add: fixtures game_eval config)

section \<open>Replay\<close>

text \<open>
  What an intro frame does with its events: it starts a play-through exactly when they
  leave \<open>intro_active\<close> and \<open>quit_game_app\<close> both unset and the initial food is found.
\<close>

lemma intro_frame_Playing:
  "intro_frame rnd i evs = Some (Playing g, j) \<longleftrightarrow>
     foldl intro_event (True, False) evs = (False, False) \<and> gameplay_init rnd i = Some (g, j)"
  by (auto simp: intro_frame_def split: prod.splits if_splits option.splits)

text \<open>A frame with Space alone leaves the intro screen.\<close>

lemma space_leaves_intro: "foldl intro_event (True, False) [KEYDOWN K_SPACE] = (False, False)"
  by simp

text \<open>
  At the stack limit the call of line 261 raises \<open>RecursionError\<close>, which nothing catches.
\<close>

lemma replay_at_stack_limit:
  assumes "KEYDOWN K_c \<in> set evs" "\<not> depth < stack_limit"
  shows "frame stack_limit rnd (GameOver g, depth, i) evs = Some (Raised RecursionError, depth, i)"
  using assms by (simp add: game_over_events_replay game_loop_call_def)

text \<open>
  Claim C9, as the code has it. Below the stack limit, a frame of the game-over screen
  that holds the key \<open>c\<close> leads to the intro screen, one activation deeper, with nothing
  of the lost game kept: from there the program runs as it does from an intro screen
  (with the generator where it stands). No play-through has started by then. The intro
  screen starts one exactly on a frame that leaves \<open>intro_active\<close> and \<open>quit_game_app\<close>
  both unset, as Space alone does, once the initial food is found; that play-through is
  the one of \<open>gameplay_init\<close>: score 0, length 1, no segments, the snake in the middle of
  the screen moving right, and a newly drawn food.
\<close>

theorem replay_returns_to_intro:
  assumes "KEYDOWN K_c \<in> set evs" "depth < stack_limit"
  shows "frame stack_limit rnd (GameOver g, depth, i) evs = Some (Intro, Suc depth, i) \<and>
         run stack_limit rnd (GameOver g, depth, i) (evs # frames) =
           run stack_limit rnd (Intro, Suc depth, i) frames \<and>
         (\<forall>evs' g' depth' j.
            frame stack_limit rnd (Intro, Suc depth, i) evs' = Some (Playing g', depth', j) \<longleftrightarrow>
              foldl intro_event (True, False) evs' = (False, False) \<and>
              gameplay_init rnd i = Some (g', j) \<and> depth' = Suc depth) \<and>
         (\<forall>g' j. gameplay_init rnd i = Some (g', j) \<longrightarrow>
            current_player_score g' = 0 \<and> snake_current_length g' = 1 \<and>
            snake_segments g' = [] \<and>
            snake_x g' = initial_snake_x \<and> snake_y g' = initial_snake_y \<and>
            snake_x_change g' = SNAKE_BLOCK_SIZE \<and> snake_y_change g' = 0 \<and>
            last_key_pressed g' = K_RIGHT \<and>
            (food_x g', food_y g') \<noteq> (snake_x g', snake_y g') \<and>
            \<not> game_is_over g' \<and> \<not> quit_game_app g')"
proof (intro conjI allI impI)
  from assms
  show step: "frame stack_limit rnd (GameOver g, depth, i) evs = Some (Intro, Suc depth, i)"
    by (simp add: game_over_events_replay game_loop_call_def)
  then show "run stack_limit rnd (GameOver g, depth, i) (evs # frames) =
      run stack_limit rnd (Intro, Suc depth, i) frames"
    by simp
next
  fix evs' g' depth' j
  show "frame stack_limit rnd (Intro, Suc depth, i) evs' = Some (Playing g', depth', j) \<longleftrightarrow>
      foldl intro_event (True, False) evs' = (False, False) \<and>
      gameplay_init rnd i = Some (g', j) \<and> depth' = Suc depth"
    using intro_frame_Playing[of rnd i evs' g' j]
    by (auto split: option.splits)
next
  fix g' j
  assume init: "gameplay_init rnd i = Some (g', j)"
  from gameplay_init_fresh[OF init] gameplay_init_food(1)[OF init]
  show "current_player_score g' = 0" "snake_current_length g' = 1" "snake_segments g' = []"
    "snake_x g' = initial_snake_x" "snake_y g' = initial_snake_y"
    "snake_x_change g' = SNAKE_BLOCK_SIZE" "snake_y_change g' = 0"
    "last_key_pressed g' = K_RIGHT" "(food_x g', food_y g') \<noteq> (snake_x g', snake_y g')"
    "\<not> game_is_over g'" "\<not> quit_game_app g'"
    by simp_all
qed

theorem replay_returns_to_intro_witness:
  "KEYDOWN K_c \<in> set [KEYDOWN K_q, KEYDOWN K_c] \<and> (1::nat) < 998 \<and>
   frame 998 id (GameOver game_lost, 1, 8) [KEYDOWN K_q, KEYDOWN K_c] = Some (Intro, 2, 8) \<and>
   run 998 id (GameOver game_lost, 1, 8) [[KEYDOWN K_q, KEYDOWN K_c], [KEYDOWN K_SPACE]] =
     Some (Playing \<lparr>snake_x = 400, snake_y = 300, snake_x_change = 20, snake_y_change = 0,
       last_key_pressed = K_RIGHT, snake_segments = [],
       snake_current_length = 1, current_player_score = 0, food_x = 160, food_y = 180,
       game_is_over = False, quit_game_app = False\<rparr>, 2, 10)"
  using replay_returns_to_intro[where evs = "[KEYDOWN K_q, KEYDOWN K_c]" and
      stack_limit = 998 and depth = 1 and rnd = id and g = game_lost and i = 8 and
      frames = "[[KEYDOWN K_SPACE]]"]
  by (simp add: fixtures game_eval config)

text \<open>
  Claim C9 as stated fails: after the key \<open>c\<close> on the game-over screen the program is on
  the intro screen and no play-through has started; with \<open>q\<close> in the next frame it ends
  without one.
\<close>

theorem replay_counterexample:
  "run 998 id (GameOver game_lost, 1, 8) [[KEYDOWN K_c]] = Some (Intro, 2, 8) \<and>
   run 998 id (GameOver game_lost, 1, 8) [[KEYDOWN K_c], [KEYDOWN K_q]] = Some (Exited, 2, 8)"
  by (simp add: fixtures game_eval config)

end
